theory Spec2Isabelle
  imports Main "HOL-Library.Char_ord" "HOL-Library.List_Lexorder"
begin

section \<open>Class scheduling on an ordered key-value store\<close>

text \<open>
  The program under study is \<^verbatim>\<open>cmd/class_scheduler/main.go\<close>: a FoundationDB tutorial
  that keeps two kinds of records below one directory prefix,
  \<^verbatim>\<open>("class", class_name) = seatsAvailable\<close> and \<^verbatim>\<open>("attends", student, class) = ""\<close>,
  and defines (as closures of \<^verbatim>\<open>main\<close>) the operations \<^verbatim>\<open>signup\<close>, \<^verbatim>\<open>drop\<close>,
  \<^verbatim>\<open>availableClasses\<close>, the initialising transaction and a hand-written variant of
  \<^verbatim>\<open>signup\<close> with its own retry loop.

  The store client (\<^verbatim>\<open>fdb\<close>, \<^verbatim>\<open>directory\<close>, \<^verbatim>\<open>subspace\<close>, \<^verbatim>\<open>tuple\<close>) is a library the
  program imports. It is modelled here by its documented contract: byte-string keys in
  bytewise lexicographic order, the tuple encoding of strings, subspaces as raw prefixes,
  and transactions whose writes become visible atomically when the commit succeeds.
\<close>

subsection \<open>Bytes\<close>

text \<open>
  Go strings and \<^verbatim>\<open>[]byte\<close> are byte sequences compared bytewise; \<^typ>\<open>char\<close> is the
  8-bit byte, ordered by its code, and lists are ordered lexicographically.
\<close>

type_synonym bytes = "char list"

definition nul :: char where
  "nul = CHR 0x00"

definition xff :: char where
  "xff = CHR 0xFF"

definition stringCode :: char where
  "stringCode = CHR 0x02"

subsection \<open>The tuple layer, for string elements\<close>

text \<open>
  \<^verbatim>\<open>tuple.Tuple{s1, ..., sn}.Pack()\<close> with Go strings: each element is the type code
  \<^verbatim>\<open>0x02\<close>, the bytes of the string with every \<^verbatim>\<open>0x00\<close> written as \<^verbatim>\<open>0x00 0xFF\<close>, and the
  terminator \<^verbatim>\<open>0x00\<close>. The program packs strings only.
\<close>

fun escape_nul :: "bytes \<Rightarrow> bytes" where
  "escape_nul [] = []"
| "escape_nul (b # bs) = (if b = nul then [nul, xff] else [b]) @ escape_nul bs"

definition encode_string :: "bytes \<Rightarrow> bytes" where
  "encode_string s = stringCode # escape_nul s @ [nul]"

definition tuple_Pack :: "bytes list \<Rightarrow> bytes" where
  "tuple_Pack t = concat (map encode_string t)"

text \<open>
  Decoding one string body: read up to the first \<^verbatim>\<open>0x00\<close> that is not followed by
  \<^verbatim>\<open>0xFF\<close>, undoing the escape; the result is the string and the bytes after the
  terminator. \<open>None\<close> when the terminator is missing.
\<close>

fun decode_string :: "bytes \<Rightarrow> (bytes \<times> bytes) option" where
  "decode_string [] = None"
| "decode_string [b] = (if b = nul then Some ([], []) else None)"
| "decode_string (b # c # bs) =
     (if b = nul then
        (if c = xff then
           (case decode_string bs of None \<Rightarrow> None | Some (s, rest) \<Rightarrow> Some (nul # s, rest))
         else Some ([], c # bs))
      else
        (case decode_string (c # bs) of None \<Rightarrow> None | Some (s, rest) \<Rightarrow> Some (b # s, rest)))"

text \<open>
  \<^verbatim>\<open>tuple.Unpack\<close>: decode elements until the input is used up. Type codes other than
  the string code are not decoded by this model and yield \<open>None\<close> (an error in the
  library as well when the code is unknown).
\<close>

function tuple_Unpack :: "bytes \<Rightarrow> bytes list option" where
  "tuple_Unpack [] = Some []"
| "tuple_Unpack (t # bs) =
     (if t = stringCode then
        (case decode_string bs of
           None \<Rightarrow> None
         | Some (s, rest) \<Rightarrow>
             (case tuple_Unpack rest of None \<Rightarrow> None | Some ss \<Rightarrow> Some (s # ss)))
      else None)"
  by pat_completeness auto
termination
proof (relation "measure length")
  show "wf (measure (length :: bytes \<Rightarrow> nat))" by simp
next
  fix t :: char and bs :: bytes and x2 :: "bytes \<times> bytes" and s rest :: bytes
  assume d: "decode_string bs = Some x2" and x: "(s, rest) = x2"
  have "\<And>s rest. decode_string bs = Some (s, rest) \<Longrightarrow> length rest < length bs"
  proof (induction bs rule: decode_string.induct)
    case 1
    then show ?case by simp
  next
    case (2 b)
    then show ?case by (simp split: if_splits)
  next
    case (3 b c bs)
    then show ?case
      by (fastforce split: if_splits option.splits)
  qed
  from this [of s rest] d x have "length rest < length bs" by auto
  then show "(rest, t # bs) \<in> measure length" by simp
qed

subsection \<open>Subspaces\<close>

text \<open>
  A subspace is its raw prefix. \<^verbatim>\<open>Sub\<close> extends the prefix by one packed element,
  \<^verbatim>\<open>Pack\<close> puts the prefix before the packed tuple, \<^verbatim>\<open>Unpack\<close> refuses a key without
  the prefix and decodes the remainder, and the range of a subspace (what \<^verbatim>\<open>GetRange\<close>
  and \<^verbatim>\<open>ClearRange\<close> receive) runs from \<^verbatim>\<open>prefix 0x00\<close> to \<^verbatim>\<open>prefix 0xFF\<close>, the end
  excluded.
\<close>

type_synonym subspace = bytes

datatype goerror =
    FdbError nat
  | KeyNotInSubspace
  | TupleDecodeError
  | Panic

definition Sub :: "subspace \<Rightarrow> bytes \<Rightarrow> subspace" where
  "Sub ss name = ss @ tuple_Pack [name]"

definition Pack :: "subspace \<Rightarrow> bytes list \<Rightarrow> bytes" where
  "Pack ss t = ss @ tuple_Pack t"

definition HasPrefix :: "bytes \<Rightarrow> bytes \<Rightarrow> bool" where
  "HasPrefix key p = (take (length p) key = p)"

definition Unpack :: "subspace \<Rightarrow> bytes \<Rightarrow> goerror + bytes list" where
  "Unpack ss key =
     (if \<not> HasPrefix key ss then Inl KeyNotInSubspace
      else (case tuple_Unpack (drop (length ss) key) of
              None \<Rightarrow> Inl TupleDecodeError
            | Some t \<Rightarrow> Inr t))"

definition range_begin :: "subspace \<Rightarrow> bytes" where
  "range_begin ss = ss @ [nul]"

definition range_end :: "subspace \<Rightarrow> bytes" where
  "range_end ss = ss @ [xff]"

text \<open>
  \<^verbatim>\<open>schedulingDir\<close> is the directory the program opens; its prefix is allocated by the
  directory layer and is a parameter \<open>dir\<close> of everything below. Lines 30 and 31:
\<close>

definition courseSS :: "subspace \<Rightarrow> subspace" where
  "courseSS dir = Sub dir ''class''"

definition attendSS :: "subspace \<Rightarrow> subspace" where
  "attendSS dir = Sub dir ''attends''"

subsection \<open>The store and its transactions\<close>

text \<open>
  The database is a finite table of key-value pairs kept in ascending key order, one
  pair per key. Inside a transaction the program sees the table and edits it; the
  edits reach the database when the transaction commits.
\<close>

type_synonym store = "(bytes \<times> bytes) list"

definition ordered_store :: "store \<Rightarrow> bool" where
  "ordered_store db = sorted_wrt (<) (map fst db)"

fun tr_Set :: "bytes \<Rightarrow> bytes \<Rightarrow> store \<Rightarrow> store" where
  "tr_Set k v [] = [(k, v)]"
| "tr_Set k v ((k', v') # db) =
     (if k < k' then (k, v) # (k', v') # db
      else if k = k' then (k, v) # db
      else (k', v') # tr_Set k v db)"

definition tr_Get :: "bytes \<Rightarrow> store \<Rightarrow> bytes option" where
  "tr_Get k db = map_of db k"

definition in_range :: "bytes \<Rightarrow> bytes \<Rightarrow> bytes \<Rightarrow> bool" where
  "in_range b e k = (b \<le> k \<and> k < e)"

definition tr_Clear :: "bytes \<Rightarrow> store \<Rightarrow> store" where
  "tr_Clear k db = filter (\<lambda>kv. fst kv \<noteq> k) db"

definition tr_ClearRange :: "subspace \<Rightarrow> store \<Rightarrow> store" where
  "tr_ClearRange ss db =
     filter (\<lambda>kv. \<not> in_range (range_begin ss) (range_end ss) (fst kv)) db"

definition tr_GetRange :: "subspace \<Rightarrow> store \<Rightarrow> (bytes \<times> bytes) list" where
  "tr_GetRange ss db =
     filter (\<lambda>kv. in_range (range_begin ss) (range_end ss) (fst kv)) db"

text \<open>
  \<^verbatim>\<open>Transact\<close> and \<^verbatim>\<open>ReadTransact\<close> belong to the library. The function handed to them
  is modelled as a state transformer on the table returning an error or a value. The
  library runs it (again after each retryable failure), commits, and gives back either
  the value with all writes applied or an error with none applied. The parameter
  \<open>outcome\<close> is what the store finally reports: \<open>None\<close> when a commit succeeded (also
  when the transactor is an enclosing transaction, which commits later),
  \<open>Some code\<close> when the library gave up with the store error \<open>code\<close>. An error
  returned by the function itself that is not a store error ends the run at once.
\<close>

type_synonym 'a txn = "store \<Rightarrow> (goerror + 'a) \<times> store"

definition Transact :: "nat option \<Rightarrow> 'a txn \<Rightarrow> store \<Rightarrow> (goerror + 'a) \<times> store" where
  "Transact outcome f db =
     (case f db of
        (Inl e, _) \<Rightarrow> (Inl e, db)
      | (Inr ret, db') \<Rightarrow>
          (case outcome of
             None \<Rightarrow> (Inr ret, db')
           | Some code \<Rightarrow> (Inl (FdbError code), db)))"

definition ReadTransact :: "nat option \<Rightarrow> 'a txn \<Rightarrow> store \<Rightarrow> (goerror + 'a) \<times> store" where
  "ReadTransact outcome f db =
     (case f db of
        (Inl e, _) \<Rightarrow> (Inl e, db)
      | (Inr ret, db') \<Rightarrow>
          (case outcome of
             None \<Rightarrow> (Inr ret, db')
           | Some code \<Rightarrow> (Inl (FdbError code), db)))"

definition err_of :: "goerror + 'a \<Rightarrow> goerror option" where
  "err_of r = (case r of Inl e \<Rightarrow> Some e | Inr _ \<Rightarrow> None)"

subsection \<open>The operations of \<^verbatim>\<open>main.go\<close>\<close>

text \<open>\<^verbatim>\<open>strconv.FormatInt(n, 10)\<close>, the decimal numeral of \<open>n\<close>.\<close>

definition digit_char :: "nat \<Rightarrow> char" where
  "digit_char d = char_of (of_char CHR ''0'' + d)"

fun format_nat :: "nat \<Rightarrow> bytes" where
  "format_nat n = (if n < 10 then [digit_char n] else format_nat (n div 10) @ [digit_char (n mod 10)])"

definition FormatInt :: "int \<Rightarrow> bytes" where
  "FormatInt i = (if i < 0 then CHR ''-'' # format_nat (nat (- i)) else format_nat (nat i))"

text \<open>Lines 116 to 129: the sample class names, level by level, type by type, time by time.\<close>

definition levels :: "bytes list" where
  "levels = [''intro'', ''for dummies'', ''remedial'', ''101'', ''201'', ''301'', ''mastery'',
     ''lab'', ''seminar'']"

definition types :: "bytes list" where
  "types = [''chem'', ''bio'', ''cs'', ''geometry'', ''calc'', ''alg'', ''film'', ''music'',
     ''art'', ''dance'']"

definition times_list :: "bytes list" where
  "times_list = [''2:00'', ''3:00'', ''4:00'', ''5:00'', ''6:00'', ''7:00'', ''8:00'', ''9:00'',
     ''10:00'', ''11:00'', ''12:00'', ''13:00'', ''14:00'', ''15:00'', ''16:00'', ''17:00'',
     ''18:00'', ''19:00'']"

definition classes :: "bytes list" where
  "classes = concat (map (\<lambda>l. concat (map (\<lambda>t. map (\<lambda>h. l @ '' '' @ t @ '' '' @ h) times_list) types)) levels)"

text \<open>
  Lines 132 to 141, the initialising transaction: clear the range of the directory,
  then set the record of every class of the list to the numeral of 100. The list is the
  variable \<^verbatim>\<open>classes\<close> the closure captures; the seat count is the constant in the code.
\<close>

definition initialize :: "subspace \<Rightarrow> nat option \<Rightarrow> bytes list \<Rightarrow> store \<Rightarrow> goerror option \<times> store" where
  "initialize dir outcome cls db =
     (case Transact outcome
        (\<lambda>tr. (Inr (),
           foldl (\<lambda>tr' c. tr_Set (Pack (courseSS dir) [c]) (FormatInt 100) tr')
             (tr_ClearRange dir tr) cls)) db
      of (r, db') \<Rightarrow> (err_of r, db'))"

text \<open>
  Lines 149 to 167, \<^verbatim>\<open>availableClasses\<close>: scan the range of the class subspace, unpack
  every key, and append the first element of its tuple. \<^verbatim>\<open>t[0]\<close> on an empty tuple
  panics. The function returns the names or the error.
\<close>

fun collect_classes :: "subspace \<Rightarrow> (bytes \<times> bytes) list \<Rightarrow> bytes list \<Rightarrow> goerror + bytes list" where
  "collect_classes ss [] acc = Inr acc"
| "collect_classes ss (kv # ri) acc =
     (case Unpack ss (fst kv) of
        Inl err \<Rightarrow> Inl err
      | Inr t \<Rightarrow>
          (case t of
             [] \<Rightarrow> Inl Panic
           | c # _ \<Rightarrow> collect_classes ss ri (acc @ [c])))"

definition availableClasses :: "subspace \<Rightarrow> nat option \<Rightarrow> store \<Rightarrow> (goerror + bytes list) \<times> store" where
  "availableClasses dir outcome db =
     ReadTransact outcome
       (\<lambda>rtr. (collect_classes (courseSS dir) (tr_GetRange (courseSS dir) rtr) [], rtr)) db"

text \<open>Lines 174 to 182, \<^verbatim>\<open>signup\<close>: set the attendance key to the empty value.\<close>

definition signup :: "subspace \<Rightarrow> nat option \<Rightarrow> bytes \<Rightarrow> bytes \<Rightarrow> store \<Rightarrow> goerror option \<times> store" where
  "signup dir outcome studentID class db =
     (let SCKey = Pack (attendSS dir) [studentID, class] in
      case Transact outcome (\<lambda>tr. (Inr (), tr_Set SCKey [] tr)) db
      of (r, db') \<Rightarrow> (err_of r, db'))"

text \<open>Lines 187 to 195, \<^verbatim>\<open>drop\<close>: clear the attendance key.\<close>

definition drop_class :: "subspace \<Rightarrow> nat option \<Rightarrow> bytes \<Rightarrow> bytes \<Rightarrow> store \<Rightarrow> goerror option \<times> store" where
  "drop_class dir outcome studentID class db =
     (let SCKey = Pack (attendSS dir) [studentID, class] in
      case Transact outcome (\<lambda>tr. (Inr (), tr_Clear SCKey tr)) db
      of (r, db') \<Rightarrow> (err_of r, db'))"

text \<open>A history of calls after an initialisation, each with what its commit reported.\<close>

datatype call = Signup bytes bytes | Drop bytes bytes

fun run_call :: "subspace \<Rightarrow> store \<Rightarrow> nat option \<times> call \<Rightarrow> store" where
  "run_call dir db (outcome, Signup s c) = snd (signup dir outcome s c db)"
| "run_call dir db (outcome, Drop s c) = snd (drop_class dir outcome s c db)"

definition run_calls :: "subspace \<Rightarrow> (nat option \<times> call) list \<Rightarrow> store \<Rightarrow> store" where
  "run_calls dir cs db = foldl (run_call dir) db cs"

text \<open>The two record keys and the seat value of a class, as the data model names them.\<close>

definition class_key :: "subspace \<Rightarrow> bytes \<Rightarrow> bytes" where
  "class_key dir c = Pack (courseSS dir) [c]"

definition attend_key :: "subspace \<Rightarrow> bytes \<Rightarrow> bytes \<Rightarrow> bytes" where
  "attend_key dir s c = Pack (attendSS dir) [s, c]"

definition seatsAvailable :: "subspace \<Rightarrow> bytes \<Rightarrow> store \<Rightarrow> bytes option" where
  "seatsAvailable dir c db = tr_Get (class_key dir c) db"

subsection \<open>The hand-written \<^verbatim>\<open>signup\<close> with its own retry loop\<close>

text \<open>
  Lines 58 to 98. The function creates one transaction and then loops: \<^verbatim>\<open>wrapped()\<close>
  sets the attendance key and commits, leaving the commit's error in \<^verbatim>\<open>err\<close> (its
  deferred \<^verbatim>\<open>recover\<close> would do the same for a panic carrying a store error; setting a
  key does not panic, so there is no such branch here); the loop
  body then tests \<^verbatim>\<open>err != nil\<close>, asserts \<^verbatim>\<open>err.(fdb.Error)\<close>, calls \<^verbatim>\<open>tr.OnError\<close>
  when the assertion holds, and tests \<^verbatim>\<open>err != nil\<close> again.

  What the store answers is outside the program: \<open>commits n\<close> is the answer to the
  commit of attempt \<open>n\<close> (\<open>None\<close> for success), \<open>retryable\<close> is the store's
  classification of its error codes, and \<open>create\<close> is the answer of
  \<^verbatim>\<open>CreateTransaction\<close>. The record counts the attempts and the calls of \<^verbatim>\<open>OnError\<close>.
  A run that never returns has the value \<open>None\<close>.
\<close>

record runner =
  database :: store
  attempts :: nat
  onerror_calls :: nat

definition wrapped :: "(nat \<Rightarrow> nat option) \<Rightarrow> bytes \<Rightarrow> runner \<Rightarrow> goerror option \<times> runner" where
  "wrapped commits SCKey r =
     (case commits (attempts r) of
        None \<Rightarrow>
          (None, r\<lparr>database := tr_Set SCKey [] (database r), attempts := Suc (attempts r)\<rparr>)
      | Some code \<Rightarrow>
          (Some (FdbError code), r\<lparr>attempts := Suc (attempts r)\<rparr>))"

definition as_fdb_Error :: "goerror option \<Rightarrow> nat option" where
  "as_fdb_Error err = (case err of Some (FdbError code) \<Rightarrow> Some code | _ \<Rightarrow> None)"

definition OnError :: "(nat \<Rightarrow> bool) \<Rightarrow> nat \<Rightarrow> goerror option" where
  "OnError retryable code = (if retryable code then None else Some (FdbError code))"

definition after_assertion :: "(nat \<Rightarrow> bool) \<Rightarrow> goerror option \<Rightarrow> runner \<Rightarrow> goerror option \<times> runner" where
  "after_assertion retryable err r =
     (case as_fdb_Error err of
        Some fe \<Rightarrow> (OnError retryable fe, r\<lparr>onerror_calls := Suc (onerror_calls r)\<rparr>)
      | None \<Rightarrow> (err, r))"

partial_function (option) signup_loop ::
  "(nat \<Rightarrow> bool) \<Rightarrow> (nat \<Rightarrow> nat option) \<Rightarrow> bytes \<Rightarrow> runner \<Rightarrow> (goerror option \<times> runner) option" where
  "signup_loop retryable commits SCKey r =
     (case wrapped commits SCKey r of
        (err, r1) \<Rightarrow>
          if err \<noteq> None then Some (err, r1)
          else
            (case after_assertion retryable err r1 of
               (err', r2) \<Rightarrow>
                 if err' \<noteq> None then Some (err', r2)
                 else signup_loop retryable commits SCKey r2))"

definition manual_signup ::
  "subspace \<Rightarrow> (nat \<Rightarrow> bool) \<Rightarrow> nat option \<Rightarrow> (nat \<Rightarrow> nat option) \<Rightarrow> bytes \<Rightarrow> bytes \<Rightarrow> store
    \<Rightarrow> (goerror option \<times> runner) option" where
  "manual_signup dir retryable create commits studentID class db =
     (case create of
        Some code \<Rightarrow>
          Some (Some (FdbError code), \<lparr>database = db, attempts = 0, onerror_calls = 0\<rparr>)
      | None \<Rightarrow>
          signup_loop retryable commits (Pack (attendSS dir) [studentID, class])
            \<lparr>database = db, attempts = 0, onerror_calls = 0\<rparr>)"

text \<open>
  The data model's condition on the class region: every key in the range of the class
  subspace is the key of a ClassRecord, that is, it unpacks to a one-element tuple.
\<close>

definition class_records_only :: "subspace \<Rightarrow> store \<Rightarrow> bool" where
  "class_records_only dir db =
     list_all (\<lambda>kv. case Unpack (courseSS dir) (fst kv) of Inr [c] \<Rightarrow> True | _ \<Rightarrow> False)
       (tr_GetRange (courseSS dir) db)"

text \<open>A directory prefix for the worked examples: two bytes, as the directory layer hands out.\<close>

definition sample_dir :: subspace where
  "sample_dir = [CHR 0x15, CHR 0x01]"

section \<open>Properties of the model\<close>

declare format_nat.simps [simp del]

subsection \<open>Byte order and the string encoding\<close>

lemma nul_least: "nul \<le> c"
  by (simp add: less_eq_char_def nul_def)

lemma nul_less: "c \<noteq> nul \<Longrightarrow> nul < c"
  using nul_least [of c] by simp

lemma append_less_cancel: "(p @ a < p @ b) = (a < (b :: 'a :: linorder list))"
  by (induction p) simp_all

lemma append_le_cancel: "(p @ a \<le> p @ b) = (a \<le> (b :: 'a :: linorder list))"
  by (induction p) simp_all

lemma escape_nul_mono: "a < b \<Longrightarrow> escape_nul a @ [nul] < escape_nul b @ [nul]"
proof (induction a arbitrary: b)
  case Nil
  then show ?case by (cases b) (auto simp: nul_less)
next
  case (Cons x xs)
  then obtain y ys where b: "b = y # ys" by (cases b) auto
  with Cons.prems have "x < y \<or> x = y \<and> xs < ys" by simp
  then show ?case
  proof
    assume "x < y"
    then have "y \<noteq> nul" using nul_least [of x] by auto
    then show ?thesis using \<open>x < y\<close> b by (auto simp: nul_less)
  next
    assume "x = y \<and> xs < ys"
    then show ?thesis using Cons.IH [of ys] b by auto
  qed
qed

lemma escape_nul_inj: "escape_nul a @ [nul] = escape_nul b @ [nul] \<Longrightarrow> a = b"
  using escape_nul_mono [of a b] escape_nul_mono [of b a]
  by (metis linorder_less_linear order_less_irrefl)

lemma escape_nul_less_iff: "(escape_nul a @ [nul] < escape_nul b @ [nul]) = (a < b)"
  using escape_nul_mono [of a b] escape_nul_mono [of b a]
  by (metis less_asym' linorder_less_linear)

lemma encode_string_less_iff: "(encode_string a < encode_string b) = (a < b)"
  by (simp add: encode_string_def escape_nul_less_iff)

lemma encode_string_inj: "(encode_string a = encode_string b) = (a = b)"
  using encode_string_less_iff [of a b] encode_string_less_iff [of b a]
  by (metis less_irrefl linorder_less_linear)

lemma decode_string_step:
  "b \<noteq> nul \<Longrightarrow> bs \<noteq> [] \<Longrightarrow>
   decode_string (b # bs) = (case decode_string bs of None \<Rightarrow> None | Some (s, rest) \<Rightarrow> Some (b # s, rest))"
  by (cases bs) simp_all

lemma decode_escape:
  "rest = [] \<or> hd rest \<noteq> xff \<Longrightarrow> decode_string (escape_nul s @ nul # rest) = Some (s, rest)"
proof (induction s)
  case Nil
  then show ?case by (cases rest) auto
next
  case (Cons x xs)
  then show ?case by (simp add: decode_string_step)
qed

lemma decode_string_canonical:
  "decode_string bs = Some (s, rest) \<Longrightarrow> bs = escape_nul s @ nul # rest"
proof (induction bs arbitrary: s rest rule: decode_string.induct)
  case 1
  then show ?case by simp
next
  case (2 b)
  then show ?case by (simp split: if_splits)
next
  case (3 b c bs)
  then show ?case by (fastforce split: if_splits option.splits)
qed

lemma tuple_Unpack_single: "tuple_Unpack (encode_string c) = Some [c]"
  using decode_escape [of "[]" c] by (simp add: encode_string_def)

lemma tuple_Unpack_Nil: "tuple_Unpack bs = Some [] \<Longrightarrow> bs = []"
  by (cases bs) (auto split: if_splits option.splits)

lemma tuple_Unpack_single_canonical: "tuple_Unpack bs = Some [c] \<Longrightarrow> bs = encode_string c"
  by (cases bs) (auto simp: encode_string_def split: if_splits option.splits dest!: tuple_Unpack_Nil decode_string_canonical)

subsection \<open>The table\<close>

lemma map_of_tr_Set: "map_of (tr_Set k v db) = (map_of db)(k \<mapsto> v)"
  by (induction db) (auto simp: fun_eq_iff)

lemma tr_Get_tr_Set: "tr_Get k' (tr_Set k v db) = (if k' = k then Some v else tr_Get k' db)"
  by (simp add: tr_Get_def map_of_tr_Set)

lemma map_of_tr_Clear: "map_of (tr_Clear k db) = (map_of db)(k := None)"
  by (induction db) (auto simp: tr_Clear_def fun_eq_iff)

lemma tr_Get_tr_Clear: "tr_Get k' (tr_Clear k db) = (if k' = k then None else tr_Get k' db)"
  by (simp add: tr_Get_def map_of_tr_Clear)

lemma keys_tr_Set: "fst ` set (tr_Set k v db) = insert k (fst ` set db)"
proof (induction db)
  case Nil
  then show ?case by simp
next
  case (Cons kv db)
  then show ?case by (cases kv) (simp add: insert_commute)
qed

lemma ordered_tr_Set: "ordered_store db \<Longrightarrow> ordered_store (tr_Set k v db)"
  unfolding ordered_store_def
proof (induction db)
  case Nil
  then show ?case by simp
next
  case (Cons kv db)
  obtain k' v' where kv: "kv = (k', v')" by (cases kv)
  from Cons have "fst ` set (tr_Set k v db) = insert k (fst ` set db)"
    by (simp add: keys_tr_Set)
  with Cons kv show ?case by (auto)
qed

lemma ordered_filter: "ordered_store db \<Longrightarrow> ordered_store (filter P db)"
  unfolding ordered_store_def by (induction db) auto

lemma tr_Set_same: "ordered_store db \<Longrightarrow> tr_Get k db = Some v \<Longrightarrow> tr_Set k v db = db"
  unfolding ordered_store_def tr_Get_def
proof (induction db)
  case Nil
  then show ?case by simp
next
  case (Cons kv db)
  obtain k' v' where kv: "kv = (k', v')" by (cases kv)
  show ?case
  proof (cases "k = k'")
    case True
    with Cons.prems kv show ?thesis by simp
  next
    case False
    with Cons.prems kv have m: "map_of db k = Some v" by simp
    then have "k \<in> fst ` set db" by (metis domI dom_map_of_conv_image_fst)
    with Cons.prems kv have "k' < k" by auto
    with Cons kv m False show ?thesis by auto
  qed
qed

lemma tr_Clear_absent: "tr_Get k db = None \<Longrightarrow> tr_Clear k db = db"
  unfolding tr_Get_def tr_Clear_def
  by (induction db) (auto split: if_splits)

lemma tr_Clear_tr_Set: "ordered_store db \<Longrightarrow> tr_Get k db = None \<Longrightarrow> tr_Clear k (tr_Set k v db) = db"
  unfolding tr_Get_def tr_Clear_def ordered_store_def
proof (induction db)
  case Nil
  then show ?case by simp
next
  case (Cons kv db)
  then show ?case by (cases kv) (auto split: if_splits simp: map_of_eq_None_iff  intro!: filter_True )
qed

lemma filter_tr_Set_outside:
  "\<not> Q k \<Longrightarrow> filter (\<lambda>kv. Q (fst kv)) (tr_Set k v db) = filter (\<lambda>kv. Q (fst kv)) db"
  by (induction db) auto

lemma filter_tr_Clear_outside:
  "\<not> Q k \<Longrightarrow> filter (\<lambda>kv. Q (fst kv)) (tr_Clear k db) = filter (\<lambda>kv. Q (fst kv)) db"
  unfolding tr_Clear_def by (induction db) auto

subsection \<open>Keys and ranges\<close>

lemma encode_class: "encode_string ''class'' = stringCode # ''class'' @ [nul]"
  by (simp add: encode_string_def nul_def)

lemma encode_attends: "encode_string ''attends'' = stringCode # ''attends'' @ [nul]"
  by (simp add: encode_string_def nul_def)

lemma class_key_eq: "class_key dir c = dir @ encode_string ''class'' @ encode_string c"
  by (simp add: class_key_def Pack_def courseSS_def Sub_def tuple_Pack_def)

lemma attend_key_eq:
  "attend_key dir s c = dir @ encode_string ''attends'' @ encode_string s @ encode_string c"
  by (simp add: attend_key_def Pack_def attendSS_def Sub_def tuple_Pack_def)

lemma courseSS_eq: "courseSS dir = dir @ encode_string ''class''"
  by (simp add: courseSS_def Sub_def tuple_Pack_def)

lemma attendSS_eq: "attendSS dir = dir @ encode_string ''attends''"
  by (simp add: attendSS_def Sub_def tuple_Pack_def)

lemma class_key_neq_attend_key: "class_key dir c \<noteq> attend_key dir s c'"
  by (simp add: class_key_eq attend_key_eq encode_class encode_attends)

lemma class_key_inj: "(class_key dir a = class_key dir b) = (a = b)"
  by (simp add: class_key_eq encode_string_inj)

lemma class_key_less_iff: "(class_key dir a < class_key dir b) = (a < b)"
  by (simp add: class_key_eq append_less_cancel encode_string_less_iff)

lemma class_key_in_courseSS: "in_range (range_begin (courseSS dir)) (range_end (courseSS dir)) (class_key dir c)"
  unfolding in_range_def range_begin_def range_end_def courseSS_eq class_key_eq
  using append_le_cancel [of "dir @ encode_string ''class''" "[nul]" "encode_string c"]
    append_less_cancel [of "dir @ encode_string ''class''" "encode_string c" "[xff]"]
  by (simp add: encode_string_def nul_def xff_def stringCode_def)

lemma attend_key_not_in_courseSS:
  "\<not> in_range (range_begin (courseSS dir)) (range_end (courseSS dir)) (attend_key dir s c)"
  unfolding in_range_def range_begin_def range_end_def courseSS_eq attend_key_eq
  using append_le_cancel [of dir "encode_string ''class'' @ [nul]" "encode_string ''attends'' @ encode_string s @ encode_string c"]
  by (simp add: encode_class encode_attends)

lemma class_key_not_in_attendSS:
  "\<not> in_range (range_begin (attendSS dir)) (range_end (attendSS dir)) (class_key dir c)"
  unfolding in_range_def range_begin_def range_end_def attendSS_eq class_key_eq
  using append_less_cancel [of dir "encode_string ''class'' @ encode_string c" "encode_string ''attends'' @ [xff]" ]
  by (simp add: encode_class encode_attends)

lemma Sub_range_within:
  assumes "in_range (range_begin (Sub ss name)) (range_end (Sub ss name)) k"
  shows "in_range (range_begin ss) (range_end ss) k"
proof -
  let ?e = "encode_string name"
  have lo: "ss @ [nul] \<le> ss @ ?e @ [nul]"
    using append_le_cancel [of ss "[nul]" "?e @ [nul]"]
    by (simp add: encode_string_def nul_def stringCode_def)
  have hi: "ss @ ?e @ [xff] < ss @ [xff]"
    using append_less_cancel [of ss "?e @ [xff]" "[xff]"]
    by (simp add: encode_string_def xff_def stringCode_def)
  from assms have "ss @ ?e @ [nul] \<le> k" "k < ss @ ?e @ [xff]"
    by (simp_all add: in_range_def range_begin_def range_end_def Sub_def tuple_Pack_def)
  with lo hi show ?thesis
    unfolding in_range_def range_begin_def range_end_def by (meson order_trans less_trans)
qed

lemma class_key_in_dir: "in_range (range_begin dir) (range_end dir) (class_key dir c)"
  using Sub_range_within [of dir "''class''" "class_key dir c"] class_key_in_courseSS [of dir c]
  by (simp add: courseSS_def)

subsection \<open>What one call does\<close>

lemma signup_commit:
  "signup dir None s c db = (None, tr_Set (attend_key dir s c) [] db)"
  by (simp add: signup_def Transact_def err_of_def attend_key_def)

lemma signup_abort:
  "signup dir (Some code) s c db = (Some (FdbError code), db)"
  by (simp add: signup_def Transact_def err_of_def)

lemma drop_commit:
  "drop_class dir None s c db = (None, tr_Clear (attend_key dir s c) db)"
  by (simp add: drop_class_def Transact_def err_of_def attend_key_def)

lemma drop_abort:
  "drop_class dir (Some code) s c db = (Some (FdbError code), db)"
  by (simp add: drop_class_def Transact_def err_of_def)

lemma seats_tr_Set_attend:
  "seatsAvailable dir c' (tr_Set (attend_key dir s c) v db) = seatsAvailable dir c' db"
  by (simp add: seatsAvailable_def tr_Get_tr_Set class_key_neq_attend_key)

lemma seats_tr_Clear_attend:
  "seatsAvailable dir c' (tr_Clear (attend_key dir s c) db) = seatsAvailable dir c' db"
  by (simp add: seatsAvailable_def tr_Get_tr_Clear class_key_neq_attend_key)

lemma seats_run_call: "seatsAvailable dir c' (run_call dir db oc) = seatsAvailable dir c' db"
proof (cases oc)
  case (Pair outcome cl)
  then show ?thesis
    by (cases cl; cases outcome)
      (simp_all add: signup_commit signup_abort drop_commit drop_abort
        seats_tr_Set_attend seats_tr_Clear_attend)
qed

lemma seats_run_calls: "seatsAvailable dir c' (run_calls dir cs db) = seatsAvailable dir c' db"
  unfolding run_calls_def
  by (induction cs arbitrary: db) (simp_all add: seats_run_call)

subsection \<open>Initialisation, listing and the retry loop\<close>

lemma initialize_commit:
  "initialize dir None cls db =
     (None, foldl (\<lambda>tr' c. tr_Set (class_key dir c) (FormatInt 100) tr') (tr_ClearRange dir db) cls)"
  by (simp add: initialize_def Transact_def err_of_def class_key_def)

lemma initialize_abort:
  "initialize dir (Some code) cls db = (Some (FdbError code), db)"
  by (simp add: initialize_def Transact_def err_of_def)

lemma tr_Get_foldl_Set:
  "tr_Get k (foldl (\<lambda>tr' c. tr_Set (f c) v tr') db cls) =
     (if k \<in> f ` set cls then Some v else tr_Get k db)"
  by (induction cls arbitrary: db rule: rev_induct) (auto simp: tr_Get_tr_Set)

lemma keys_foldl_Set:
  "fst ` set (foldl (\<lambda>tr' c. tr_Set (f c) v tr') db cls) = f ` set cls \<union> fst ` set db"
  by (induction cls arbitrary: db rule: rev_induct) (auto simp: keys_tr_Set)

lemma ordered_foldl_Set:
  "ordered_store db \<Longrightarrow> ordered_store (foldl (\<lambda>tr' c. tr_Set (f c) v tr') db cls)"
  by (induction cls arbitrary: db) (simp_all add: ordered_tr_Set)

lemma seats_after_initialize:
  "c \<in> set cls \<Longrightarrow> seatsAvailable dir c (snd (initialize dir None cls db)) = Some (FormatInt 100)"
  by (simp add: initialize_commit seatsAvailable_def tr_Get_foldl_Set)

lemma filter_key_single:
  "ordered_store db \<Longrightarrow> tr_Get k db = Some v \<Longrightarrow> filter (\<lambda>kv. fst kv = k) db = [(k, v)]"
  unfolding ordered_store_def tr_Get_def
proof (induction db)
  case Nil
  then show ?case by simp
next
  case (Cons kv db)
  obtain k' v' where kv: "kv = (k', v')" by (cases kv)
  show ?case
  proof (cases "k' = k")
    case True
    with Cons.prems kv have "\<forall>x \<in> set db. fst x \<noteq> k" by auto
    then have "filter (\<lambda>kv. fst kv = k) db = []" by (simp add: filter_empty_conv)
    with True Cons.prems kv show ?thesis by simp
  next
    case False
    with Cons kv show ?thesis by simp
  qed
qed

lemma GetRange_run_call:
  "tr_GetRange (courseSS dir) (run_call dir db oc) = tr_GetRange (courseSS dir) db"
proof (cases oc)
  case (Pair outcome cl)
  have ns: "\<And>s c v. tr_GetRange (courseSS dir) (tr_Set (attend_key dir s c) v db) = tr_GetRange (courseSS dir) db"
    unfolding tr_GetRange_def
    by (rule filter_tr_Set_outside) (rule attend_key_not_in_courseSS)
  have nc: "\<And>s c. tr_GetRange (courseSS dir) (tr_Clear (attend_key dir s c) db) = tr_GetRange (courseSS dir) db"
    unfolding tr_GetRange_def
    by (rule filter_tr_Clear_outside) (rule attend_key_not_in_courseSS)
  from Pair show ?thesis
    by (cases cl; cases outcome)
      (simp_all add: signup_commit signup_abort drop_commit drop_abort ns nc)
qed

lemma GetRange_run_calls:
  "tr_GetRange (courseSS dir) (run_calls dir cs db) = tr_GetRange (courseSS dir) db"
  unfolding run_calls_def
  by (induction cs arbitrary: db) (simp_all add: GetRange_run_call)

lemma keys_GetRange:
  "fst ` set (tr_GetRange ss db) = {k \<in> fst ` set db. in_range (range_begin ss) (range_end ss) k}"
  by (auto simp: tr_GetRange_def)

lemma keys_ClearRange:
  "fst ` set (tr_ClearRange ss db) = {k \<in> fst ` set db. \<not> in_range (range_begin ss) (range_end ss) k}"
  by (auto simp: tr_ClearRange_def)

lemma courseSS_within_dir:
  "in_range (range_begin (courseSS dir)) (range_end (courseSS dir)) k \<Longrightarrow>
   in_range (range_begin dir) (range_end dir) k"
  unfolding courseSS_def by (rule Sub_range_within)

lemma attendSS_within_dir:
  "in_range (range_begin (attendSS dir)) (range_end (attendSS dir)) k \<Longrightarrow>
   in_range (range_begin dir) (range_end dir) k"
  unfolding attendSS_def by (rule Sub_range_within)

lemma keys_after_initialize:
  "fst ` set (snd (initialize dir None cls db)) =
     class_key dir ` set cls \<union> {k \<in> fst ` set db. \<not> in_range (range_begin dir) (range_end dir) k}"
  by (simp add: initialize_commit keys_foldl_Set keys_ClearRange)

lemma class_keys_after_initialize:
  "fst ` set (tr_GetRange (courseSS dir) (snd (initialize dir None cls db))) = class_key dir ` set cls"
  unfolding keys_GetRange keys_after_initialize
  using class_key_in_courseSS [of dir] courseSS_within_dir [of dir]
  by auto

lemma dir_keys_after_initialize:
  "fst ` set (tr_GetRange dir (snd (initialize dir None cls db))) = class_key dir ` set cls"
  unfolding keys_GetRange keys_after_initialize
  using class_key_in_dir [of dir]
  by auto

lemma no_attendance_after_initialize:
  "tr_GetRange (attendSS dir) (snd (initialize dir None cls db)) = []"
proof -
  have "fst ` set (tr_GetRange (attendSS dir) (snd (initialize dir None cls db))) = {}"
    unfolding keys_GetRange keys_after_initialize
    using class_key_not_in_attendSS [of dir] attendSS_within_dir [of dir]
    by auto
  then show ?thesis by simp
qed

lemma Unpack_class_key: "Unpack (courseSS dir) (class_key dir c) = Inr [c]"
  by (simp add: Unpack_def HasPrefix_def class_key_eq courseSS_eq tuple_Unpack_single)

lemma Unpack_single_canonical:
  assumes "Unpack (courseSS dir) k = Inr [c]"
  shows "k = class_key dir c"
proof -
  from assms have p: "take (length (courseSS dir)) k = courseSS dir"
    and u: "tuple_Unpack (drop (length (courseSS dir)) k) = Some [c]"
    by (auto simp: Unpack_def HasPrefix_def split: if_splits option.splits)
  from u have "drop (length (courseSS dir)) k = encode_string c"
    by (rule tuple_Unpack_single_canonical)
  with p have "k = courseSS dir @ encode_string c"
    by (metis append_take_drop_id)
  then show ?thesis by (simp add: class_key_eq courseSS_eq)
qed

lemma collect_classes_ok:
  assumes "list_all (\<lambda>kv. case Unpack (courseSS dir) (fst kv) of Inr [c] \<Rightarrow> True | _ \<Rightarrow> False) ri"
  shows "\<exists>names. collect_classes (courseSS dir) ri acc = Inr (acc @ names) \<and>
           map (class_key dir) names = map fst ri"
  using assms
proof (induction ri arbitrary: acc)
  case Nil
  then show ?case by simp
next
  case (Cons kv ri)
  from Cons.prems obtain c where u: "Unpack (courseSS dir) (fst kv) = Inr [c]"
    by (auto split: sum.splits list.splits)
  then have k: "fst kv = class_key dir c" by (rule Unpack_single_canonical)
  from Cons.prems have "list_all (\<lambda>kv. case Unpack (courseSS dir) (fst kv) of Inr [c] \<Rightarrow> True | _ \<Rightarrow> False) ri"
    by simp
  from Cons.IH [OF this, of "acc @ [c]"] obtain names where
    n: "collect_classes (courseSS dir) ri (acc @ [c]) = Inr ((acc @ [c]) @ names)"
       "map (class_key dir) names = map fst ri"
    by blast
  with u k have "collect_classes (courseSS dir) (kv # ri) acc = Inr (acc @ (c # names)) \<and>
      map (class_key dir) (c # names) = map fst (kv # ri)"
    by simp
  then show ?case by blast
qed

lemma sorted_names:
  assumes "sorted_wrt (<) (map (class_key dir) names)"
  shows "sorted_wrt (<) names"
proof -
  from assms have "sorted_wrt (\<lambda>a b. class_key dir a < class_key dir b) names"
    by (simp add: sorted_wrt_map)
  then show ?thesis by (simp add: class_key_less_iff)
qed

lemma after_assertion_nil: "after_assertion retryable None r = (None, r)"
  by (simp add: after_assertion_def as_fdb_Error_def)

lemma signup_loop_unfold:
  "signup_loop retryable commits k r =
     (case commits (attempts r) of
        Some code \<Rightarrow> Some (Some (FdbError code), r\<lparr>attempts := Suc (attempts r)\<rparr>)
      | None \<Rightarrow>
          signup_loop retryable commits k
            (r\<lparr>database := tr_Set k [] (database r), attempts := Suc (attempts r)\<rparr>))"
  by (subst signup_loop.simps) (simp add: wrapped_def after_assertion_nil split: option.splits)

lemma signup_loop_returns:
  assumes "signup_loop retryable commits k r = Some res"
  shows "(\<exists>code. fst res = Some (FdbError code)) \<and>
         onerror_calls (snd res) = onerror_calls r \<and>
         (\<exists>n \<ge> attempts r. commits n \<noteq> None)"
proof (rule signup_loop.raw_induct
    [where P = "\<lambda>retryable commits k r res.
       (\<exists>code. fst res = Some (FdbError code)) \<and>
       onerror_calls (snd res) = onerror_calls r \<and>
       (\<exists>n \<ge> attempts r. commits n \<noteq> None)", OF _ assms])
  fix f retryable commits k r res
  assume IH: "\<And>retryable commits k r res. f retryable commits k r = Some res \<Longrightarrow>
       (\<exists>code. fst res = Some (FdbError code)) \<and>
       onerror_calls (snd res) = onerror_calls r \<and>
       (\<exists>n \<ge> attempts r. commits n \<noteq> None)"
    and step: "(case wrapped commits k r of
        (err, r1) \<Rightarrow>
          if err \<noteq> None then Some (err, r1)
          else
            (case after_assertion retryable err r1 of
               (err', r2) \<Rightarrow>
                 if err' \<noteq> None then Some (err', r2)
                 else f retryable commits k r2)) = Some res"
  show "(\<exists>code. fst res = Some (FdbError code)) \<and>
       onerror_calls (snd res) = onerror_calls r \<and>
       (\<exists>n \<ge> attempts r. commits n \<noteq> None)"
  proof (cases "commits (attempts r)")
    case None
    let ?r = "r\<lparr>database := tr_Set k [] (database r), attempts := Suc (attempts r)\<rparr>"
    from None step have "f retryable commits k ?r = Some res"
      by (simp add: wrapped_def after_assertion_nil)
    from IH [OF this] show ?thesis
      by (auto intro: Suc_leD)
  next
    case (Some code)
    with step show ?thesis
      by (auto simp: wrapped_def)
  qed
qed

lemma signup_loop_diverges:
  assumes "\<forall>n. commits n = None"
  shows "signup_loop retryable commits k r = None"
proof (cases "signup_loop retryable commits k r")
  case None
  then show ?thesis .
next
  case (Some res)
  from signup_loop_returns [OF this] assms show ?thesis by auto
qed

lemma signup_then_drop_restores:
  assumes "ordered_store db" and "tr_Get (attend_key dir s c) db = None"
  shows "snd (drop_class dir None s c (snd (signup dir None s c db))) = db"
  using assms by (simp add: signup_commit drop_commit tr_Clear_tr_Set)

lemma ordered_run_call: "ordered_store db \<Longrightarrow> ordered_store (run_call dir db oc)"
proof (cases oc)
  case (Pair outcome cl)
  assume "ordered_store db"
  with Pair show ?thesis
    by (cases cl; cases outcome)
      (simp_all add: signup_commit signup_abort drop_commit drop_abort ordered_tr_Set
        tr_Clear_def ordered_filter)
qed

lemma ordered_run_calls: "ordered_store db \<Longrightarrow> ordered_store (run_calls dir cs db)"
  unfolding run_calls_def
  by (induction cs arbitrary: db) (simp_all add: ordered_run_call)

lemma ordered_after_initialize:
  "ordered_store db \<Longrightarrow> ordered_store (snd (initialize dir None cls db))"
  by (simp add: initialize_commit ordered_foldl_Set tr_ClearRange_def ordered_filter)

lemma class_records_only_after_initialize:
  "class_records_only dir (run_calls dir cs (snd (initialize dir None cls db)))"
proof -
  let ?ri = "tr_GetRange (courseSS dir) (snd (initialize dir None cls db))"
  have "\<forall>kv \<in> set ?ri. \<exists>c. fst kv = class_key dir c"
    using class_keys_after_initialize [of dir cls db] by (metis (no_types, lifting) image_iff)
  then have "\<forall>kv \<in> set ?ri. (case Unpack (courseSS dir) (fst kv) of Inr [c] \<Rightarrow> True | _ \<Rightarrow> False)"
    by (auto simp: Unpack_class_key)
  then show ?thesis
    by (simp add: class_records_only_def GetRange_run_calls list_all_iff)
qed

section \<open>The claims\<close>

text \<open>
  C1. The claim: a \<^verbatim>\<open>signup\<close> for an existing class without an attendance record fails
  with CapacityError and changes nothing when \<^verbatim>\<open>seatsAvailable <= 0\<close>, and otherwise
  decrements \<^verbatim>\<open>seatsAvailable\<close> by one. The code makes no capacity check: with the seat
  count at 0 the call succeeds and writes the attendance key, and the seat count stays
  as it was.
\<close>

theorem signup_full_class_counterexample:
  "seatsAvailable sample_dir ''a'' [(class_key sample_dir ''a'', FormatInt 0)] = Some (FormatInt 0) \<and>
   tr_Get (attend_key sample_dir ''s'' ''a'') [(class_key sample_dir ''a'', FormatInt 0)] = None \<and>
   signup sample_dir None ''s'' ''a'' [(class_key sample_dir ''a'', FormatInt 0)]
     = (None, [(attend_key sample_dir ''s'' ''a'', []), (class_key sample_dir ''a'', FormatInt 0)])"
  by code_simp

text \<open>
  C1, as the code has it: for an existing class without an attendance record, whatever
  the seat count is, \<^verbatim>\<open>signup\<close> succeeds once its transaction commits, writes the
  AttendanceRecord and leaves the seat count of the class as it was. No history of
  \<^verbatim>\<open>signup\<close> and \<^verbatim>\<open>drop\<close> calls changes the seat count of any class, so after an
  initialisation every listed class keeps the count 100 and is never negative.
\<close>

theorem signup_no_capacity_check:
  assumes "seatsAvailable dir c db = Some v"
      and "tr_Get (attend_key dir s c) db = None"
      and "c' \<in> set cls"
  shows "signup dir None s c db = (None, tr_Set (attend_key dir s c) [] db) \<and>
         tr_Get (attend_key dir s c) (snd (signup dir None s c db)) = Some [] \<and>
         seatsAvailable dir c (snd (signup dir None s c db)) = Some v \<and>
         seatsAvailable dir c'' (run_calls dir cs db) = seatsAvailable dir c'' db \<and>
         seatsAvailable dir c' (run_calls dir cs' (snd (initialize dir None cls db0)))
           = Some (FormatInt 100)"
  using assms
  by (simp add: signup_commit tr_Get_tr_Set seats_tr_Set_attend seats_run_calls
      seats_after_initialize)

theorem signup_no_capacity_check_witness:
  "seatsAvailable sample_dir ''a'' [(class_key sample_dir ''a'', FormatInt 0)] = Some (FormatInt 0) \<and>
   tr_Get (attend_key sample_dir ''s'' ''a'') [(class_key sample_dir ''a'', FormatInt 0)] = None \<and>
   ''a'' \<in> set [''a'', ''b''] \<and>
   signup sample_dir None ''s'' ''a'' [(class_key sample_dir ''a'', FormatInt 0)]
     = (None, tr_Set (attend_key sample_dir ''s'' ''a'') [] [(class_key sample_dir ''a'', FormatInt 0)]) \<and>
   tr_Get (attend_key sample_dir ''s'' ''a'')
     (snd (signup sample_dir None ''s'' ''a'' [(class_key sample_dir ''a'', FormatInt 0)])) = Some [] \<and>
   seatsAvailable sample_dir ''a''
     (snd (signup sample_dir None ''s'' ''a'' [(class_key sample_dir ''a'', FormatInt 0)]))
     = Some (FormatInt 0) \<and>
   seatsAvailable sample_dir ''a''
     (run_calls sample_dir [(None, Signup ''s'' ''a''), (None, Signup ''t'' ''a'')]
        [(class_key sample_dir ''a'', FormatInt 0)])
     = seatsAvailable sample_dir ''a'' [(class_key sample_dir ''a'', FormatInt 0)] \<and>
   seatsAvailable sample_dir ''a''
     (run_calls sample_dir [(None, Signup ''s'' ''a''), (None, Drop ''s'' ''a'')]
        (snd (initialize sample_dir None [''a'', ''b''] [])))
     = Some (FormatInt 100)"
proof -
  have h1: "seatsAvailable sample_dir ''a'' [(class_key sample_dir ''a'', FormatInt 0)]
      = Some (FormatInt 0)"
    by code_simp
  have h2: "tr_Get (attend_key sample_dir ''s'' ''a'') [(class_key sample_dir ''a'', FormatInt 0)]
      = None"
    by code_simp
  have h3: "''a'' \<in> set [''a'', ''b'']"
    by simp
  show ?thesis
    by (rule conjI [OF h1 conjI [OF h2 conjI [OF h3 signup_no_capacity_check [OF h1 h2 h3]]]])
qed

text \<open>
  C2. The claim: \<^verbatim>\<open>signup\<close> is idempotent, and two calls in sequence from a state
  without the record decrement \<^verbatim>\<open>seatsAvailable\<close> exactly once. In the code the seat
  count is not decremented at all: after two calls it is still 100, not 99.
\<close>

theorem signup_twice_counterexample:
  "tr_Get (attend_key sample_dir ''s'' ''a'') [(class_key sample_dir ''a'', FormatInt 100)] = None \<and>
   seatsAvailable sample_dir ''a''
     (snd (signup sample_dir None ''s'' ''a''
        (snd (signup sample_dir None ''s'' ''a'' [(class_key sample_dir ''a'', FormatInt 100)]))))
     = Some (FormatInt 100) \<and>
   FormatInt 100 \<noteq> FormatInt (100 - 1)"
  by code_simp

text \<open>
  C2, as the code has it: if the AttendanceRecord already exists (with its empty value),
  \<^verbatim>\<open>signup\<close> succeeds and changes no store state; two calls in sequence from a state
  without the record leave exactly one AttendanceRecord, the second call changes
  nothing, and the seat count of the class is as it was before the first call.
\<close>

theorem signup_idempotent:
  assumes "ordered_store db" and "tr_Get (attend_key dir s c) db = Some []"
      and "ordered_store db'" and "tr_Get (attend_key dir s c) db' = None"
  shows "signup dir None s c db = (None, db) \<and>
         signup dir None s c (snd (signup dir None s c db')) = (None, snd (signup dir None s c db')) \<and>
         filter (\<lambda>kv. fst kv = attend_key dir s c)
           (snd (signup dir None s c (snd (signup dir None s c db'))))
           = [(attend_key dir s c, [])] \<and>
         seatsAvailable dir c (snd (signup dir None s c (snd (signup dir None s c db'))))
           = seatsAvailable dir c db'"
proof -
  let ?k = "attend_key dir s c"
  let ?db1 = "tr_Set ?k [] db'"
  have o1: "ordered_store ?db1" using assms(3) by (rule ordered_tr_Set)
  have g1: "tr_Get ?k ?db1 = Some []" by (simp add: tr_Get_tr_Set)
  have same: "tr_Set ?k [] ?db1 = ?db1" using o1 g1 by (rule tr_Set_same)
  have one: "filter (\<lambda>kv. fst kv = ?k) ?db1 = [(?k, [])]" using o1 g1 by (rule filter_key_single)
  show ?thesis
    using assms(1,2) same one
    by (simp add: signup_commit tr_Set_same seats_tr_Set_attend)
qed

theorem signup_idempotent_witness:
  "ordered_store [(attend_key sample_dir ''s'' ''a'', []), (class_key sample_dir ''a'', FormatInt 100)] \<and>
   tr_Get (attend_key sample_dir ''s'' ''a'')
     [(attend_key sample_dir ''s'' ''a'', []), (class_key sample_dir ''a'', FormatInt 100)] = Some [] \<and>
   ordered_store [(class_key sample_dir ''a'', FormatInt 100)] \<and>
   tr_Get (attend_key sample_dir ''s'' ''a'') [(class_key sample_dir ''a'', FormatInt 100)] = None \<and>
   signup sample_dir None ''s'' ''a''
     [(attend_key sample_dir ''s'' ''a'', []), (class_key sample_dir ''a'', FormatInt 100)]
     = (None, [(attend_key sample_dir ''s'' ''a'', []), (class_key sample_dir ''a'', FormatInt 100)]) \<and>
   signup sample_dir None ''s'' ''a''
     (snd (signup sample_dir None ''s'' ''a'' [(class_key sample_dir ''a'', FormatInt 100)]))
     = (None, snd (signup sample_dir None ''s'' ''a'' [(class_key sample_dir ''a'', FormatInt 100)])) \<and>
   filter (\<lambda>kv. fst kv = attend_key sample_dir ''s'' ''a'')
     (snd (signup sample_dir None ''s'' ''a''
        (snd (signup sample_dir None ''s'' ''a'' [(class_key sample_dir ''a'', FormatInt 100)]))))
     = [(attend_key sample_dir ''s'' ''a'', [])] \<and>
   seatsAvailable sample_dir ''a''
     (snd (signup sample_dir None ''s'' ''a''
        (snd (signup sample_dir None ''s'' ''a'' [(class_key sample_dir ''a'', FormatInt 100)]))))
     = seatsAvailable sample_dir ''a'' [(class_key sample_dir ''a'', FormatInt 100)]"
proof -
  have h1: "ordered_store
      [(attend_key sample_dir ''s'' ''a'', []), (class_key sample_dir ''a'', FormatInt 100)]"
    by code_simp
  have h2: "tr_Get (attend_key sample_dir ''s'' ''a'')
      [(attend_key sample_dir ''s'' ''a'', []), (class_key sample_dir ''a'', FormatInt 100)] = Some []"
    by code_simp
  have h3: "ordered_store [(class_key sample_dir ''a'', FormatInt 100)]"
    by code_simp
  have h4: "tr_Get (attend_key sample_dir ''s'' ''a'') [(class_key sample_dir ''a'', FormatInt 100)]
      = None"
    by code_simp
  show ?thesis
    by (rule conjI [OF h1 conjI [OF h2 conjI [OF h3 conjI [OF h4
          signup_idempotent [OF h1 h2 h3 h4]]]]])
qed

text \<open>
  C3. The claim: a \<^verbatim>\<open>signup\<close> for a class without a ClassRecord fails with NotFoundError
  and leaves the store unchanged. The code never reads the ClassRecord: on the empty
  store the call succeeds and writes the attendance key.
\<close>

theorem signup_missing_class_counterexample:
  "tr_Get (class_key sample_dir ''a'') [] = None \<and>
   signup sample_dir None ''s'' ''a'' [] = (None, [(attend_key sample_dir ''s'' ''a'', [])])"
  by code_simp

text \<open>
  C3, as the code has it: when no ClassRecord for the class exists, \<^verbatim>\<open>signup\<close> still
  succeeds once its transaction commits, writes the AttendanceRecord with the empty
  value and creates no ClassRecord; it fails only with the store's own error, and then
  the store is unchanged.
\<close>

theorem signup_missing_class:
  assumes "tr_Get (class_key dir c) db = None"
  shows "signup dir None s c db = (None, tr_Set (attend_key dir s c) [] db) \<and>
         tr_Get (attend_key dir s c) (snd (signup dir None s c db)) = Some [] \<and>
         tr_Get (class_key dir c) (snd (signup dir None s c db)) = None \<and>
         signup dir (Some code) s c db = (Some (FdbError code), db)"
  using assms
  by (simp add: signup_commit signup_abort tr_Get_tr_Set class_key_neq_attend_key)

theorem signup_missing_class_witness:
  "tr_Get (class_key sample_dir ''a'') [(''k'', ''v'')] = None \<and>
   signup sample_dir None ''s'' ''a'' [(''k'', ''v'')]
     = (None, tr_Set (attend_key sample_dir ''s'' ''a'') [] [(''k'', ''v'')]) \<and>
   tr_Get (attend_key sample_dir ''s'' ''a'')
     (snd (signup sample_dir None ''s'' ''a'' [(''k'', ''v'')])) = Some [] \<and>
   tr_Get (class_key sample_dir ''a'')
     (snd (signup sample_dir None ''s'' ''a'' [(''k'', ''v'')])) = None \<and>
   signup sample_dir (Some 1020) ''s'' ''a'' [(''k'', ''v'')]
     = (Some (FdbError 1020), [(''k'', ''v'')])"
proof -
  have h: "tr_Get (class_key sample_dir ''a'') [(''k'', ''v'')] = None"
    by code_simp
  show ?thesis
    by (rule conjI [OF h signup_missing_class [OF h]])
qed

text \<open>
  C4. The claim: \<^verbatim>\<open>drop\<close> of an existing record deletes it and increments
  \<^verbatim>\<open>seatsAvailable\<close> by one, and fails with NotFoundError when the ClassRecord is
  missing. The code only clears the attendance key: the seat count stays 100 and is
  not 101, and without a ClassRecord the call succeeds.
\<close>

theorem drop_counterexample:
  "drop_class sample_dir None ''s'' ''a''
     [(attend_key sample_dir ''s'' ''a'', []), (class_key sample_dir ''a'', FormatInt 100)]
     = (None, [(class_key sample_dir ''a'', FormatInt 100)]) \<and>
   FormatInt 100 \<noteq> FormatInt (100 + 1) \<and>
   tr_Get (class_key sample_dir ''a'') [(attend_key sample_dir ''s'' ''a'', [])] = None \<and>
   drop_class sample_dir None ''s'' ''a'' [(attend_key sample_dir ''s'' ''a'', [])] = (None, [])"
  by code_simp

text \<open>
  C4, as the code has it: if no AttendanceRecord exists, \<^verbatim>\<open>drop\<close> succeeds and changes
  no store state; if the record exists, \<^verbatim>\<open>drop\<close> succeeds once its transaction commits,
  deletes the record and leaves the seat count of every class as it was, whether or not
  the ClassRecord exists.
\<close>

theorem drop_only_clears:
  assumes "tr_Get (attend_key dir s c) db = None"
      and "tr_Get (attend_key dir s c) db' = Some v"
  shows "drop_class dir None s c db = (None, db) \<and>
         drop_class dir None s c db' = (None, tr_Clear (attend_key dir s c) db') \<and>
         tr_Get (attend_key dir s c) (snd (drop_class dir None s c db')) = None \<and>
         seatsAvailable dir c' (snd (drop_class dir None s c db')) = seatsAvailable dir c' db'"
  using assms
  by (simp add: drop_commit tr_Clear_absent tr_Get_tr_Clear seats_tr_Clear_attend)

theorem drop_only_clears_witness:
  "tr_Get (attend_key sample_dir ''s'' ''a'') [(class_key sample_dir ''a'', FormatInt 100)] = None \<and>
   tr_Get (attend_key sample_dir ''s'' ''a'')
     [(attend_key sample_dir ''s'' ''a'', []), (class_key sample_dir ''a'', FormatInt 100)] = Some [] \<and>
   drop_class sample_dir None ''s'' ''a'' [(class_key sample_dir ''a'', FormatInt 100)]
     = (None, [(class_key sample_dir ''a'', FormatInt 100)]) \<and>
   drop_class sample_dir None ''s'' ''a''
     [(attend_key sample_dir ''s'' ''a'', []), (class_key sample_dir ''a'', FormatInt 100)]
     = (None, tr_Clear (attend_key sample_dir ''s'' ''a'')
         [(attend_key sample_dir ''s'' ''a'', []), (class_key sample_dir ''a'', FormatInt 100)]) \<and>
   tr_Get (attend_key sample_dir ''s'' ''a'')
     (snd (drop_class sample_dir None ''s'' ''a''
        [(attend_key sample_dir ''s'' ''a'', []), (class_key sample_dir ''a'', FormatInt 100)])) = None \<and>
   seatsAvailable sample_dir ''a''
     (snd (drop_class sample_dir None ''s'' ''a''
        [(attend_key sample_dir ''s'' ''a'', []), (class_key sample_dir ''a'', FormatInt 100)]))
     = seatsAvailable sample_dir ''a''
        [(attend_key sample_dir ''s'' ''a'', []), (class_key sample_dir ''a'', FormatInt 100)]"
proof -
  have h1: "tr_Get (attend_key sample_dir ''s'' ''a'') [(class_key sample_dir ''a'', FormatInt 100)]
      = None"
    by code_simp
  have h2: "tr_Get (attend_key sample_dir ''s'' ''a'')
      [(attend_key sample_dir ''s'' ''a'', []), (class_key sample_dir ''a'', FormatInt 100)] = Some []"
    by code_simp
  show ?thesis
    by (rule conjI [OF h1 conjI [OF h2 drop_only_clears [OF h1 h2]]])
qed

text \<open>
  C5. The claim: the initialisation writes the supplied seat count, so that after
  \<^verbatim>\<open>initialize(["a","b","c"], 5)\<close> every listed class has 5 seats. The code takes no
  seat count: it writes the numeral of 100 for every class.
\<close>

theorem initialize_counterexample:
  "seatsAvailable sample_dir ''a'' (snd (initialize sample_dir None [''a'', ''b'', ''c''] []))
     = Some (FormatInt 100) \<and>
   FormatInt 100 \<noteq> FormatInt 5"
  by code_simp

text \<open>
  C5, as the code has it: the initialising transaction first clears the whole range of
  the directory (class and attendance regions) and then writes one ClassRecord per
  name of the list, each with the seat count 100 that is fixed in the code; afterwards
  every listed class has 100 seats, no attendance record remains, and the keys in the
  directory's range are exactly the keys of the listed classes.
\<close>

theorem initialize_resets:
  assumes "c \<in> set cls"
  shows "fst (initialize dir None cls db) = None \<and>
         seatsAvailable dir c (snd (initialize dir None cls db)) = Some (FormatInt 100) \<and>
         tr_GetRange (attendSS dir) (snd (initialize dir None cls db)) = [] \<and>
         fst ` set (tr_GetRange dir (snd (initialize dir None cls db))) = class_key dir ` set cls"
  using assms
  by (simp add: seats_after_initialize no_attendance_after_initialize dir_keys_after_initialize)
    (simp add: initialize_commit)

theorem initialize_resets_witness:
  "''b'' \<in> set [''a'', ''b'', ''c''] \<and>
   fst (initialize sample_dir None [''a'', ''b'', ''c''] [(attend_key sample_dir ''s'' ''a'', [])]) = None \<and>
   seatsAvailable sample_dir ''b''
     (snd (initialize sample_dir None [''a'', ''b'', ''c''] [(attend_key sample_dir ''s'' ''a'', [])]))
     = Some (FormatInt 100) \<and>
   tr_GetRange (attendSS sample_dir)
     (snd (initialize sample_dir None [''a'', ''b'', ''c''] [(attend_key sample_dir ''s'' ''a'', [])]))
     = [] \<and>
   fst ` set (tr_GetRange sample_dir
     (snd (initialize sample_dir None [''a'', ''b'', ''c''] [(attend_key sample_dir ''s'' ''a'', [])])))
     = class_key sample_dir ` set [''a'', ''b'', ''c'']"
proof -
  have h: "''b'' \<in> set [''a'', ''b'', ''c'']"
    by simp
  show ?thesis
    by (rule conjI [OF h initialize_resets [OF h]])
qed

text \<open>
  C6. \<^verbatim>\<open>availableClasses\<close> only reads: on a store whose class region holds ClassRecords
  only, it returns the store unchanged together with the names decoded from exactly
  the keys of the class region, in key order; the names are strictly ascending in
  bytewise lexicographic order (so without duplicates), they are exactly the names
  whose ClassRecord exists, and no attendance key is in the scanned range.
\<close>

theorem availableClasses_lists_class_region:
  assumes "ordered_store db" and "class_records_only dir db"
  shows "\<exists>names.
           availableClasses dir None db = (Inr names, db) \<and>
           map (class_key dir) names = map fst (tr_GetRange (courseSS dir) db) \<and>
           sorted_wrt (<) names \<and>
           set names = {c. tr_Get (class_key dir c) db \<noteq> None} \<and>
           attend_key dir s c' \<notin> fst ` set (tr_GetRange (courseSS dir) db)"
proof -
  let ?ri = "tr_GetRange (courseSS dir) db"
  from assms(2) obtain names where
    n: "collect_classes (courseSS dir) ?ri [] = Inr ([] @ names)"
       "map (class_key dir) names = map fst ?ri"
    unfolding class_records_only_def using collect_classes_ok [of dir ?ri "[]"] by blast
  have "ordered_store ?ri" unfolding tr_GetRange_def using assms(1) by (rule ordered_filter)
  then have "sorted_wrt (<) (map (class_key dir) names)"
    unfolding ordered_store_def n(2) .
  then have s: "sorted_wrt (<) names" by (rule sorted_names)
  have "class_key dir ` set names = fst ` set ?ri"
    using n(2) by (metis list.set_map)
  then have ks: "class_key dir ` set names = {k \<in> fst ` set db. in_range (range_begin (courseSS dir)) (range_end (courseSS dir)) k}"
    by (simp add: keys_GetRange)
  have m: "(c \<in> set names) = (class_key dir c \<in> fst ` set db)" for c
  proof
    assume "c \<in> set names"
    then have "class_key dir c \<in> class_key dir ` set names" by simp
    with ks show "class_key dir c \<in> fst ` set db" by simp
  next
    assume "class_key dir c \<in> fst ` set db"
    with ks class_key_in_courseSS [of dir c] have "class_key dir c \<in> class_key dir ` set names"
      by simp
    then show "c \<in> set names" by (auto simp: class_key_inj)
  qed
  have e: "set names = {c. tr_Get (class_key dir c) db \<noteq> None}"
    using m by (simp add: tr_Get_def map_of_eq_None_iff set_eq_iff)
  have a: "attend_key dir s c' \<notin> fst ` set ?ri"
    using attend_key_not_in_courseSS [of dir s c'] by (simp add: keys_GetRange)
  from n s e a show ?thesis
    by (simp add: availableClasses_def ReadTransact_def)
qed

theorem availableClasses_lists_class_region_witness:
  "ordered_store
     [(attend_key sample_dir ''s'' ''b'', []), (class_key sample_dir ''a'', FormatInt 100),
      (class_key sample_dir ''b'', FormatInt 100)] \<and>
   class_records_only sample_dir
     [(attend_key sample_dir ''s'' ''b'', []), (class_key sample_dir ''a'', FormatInt 100),
      (class_key sample_dir ''b'', FormatInt 100)] \<and>
   (\<exists>names.
      availableClasses sample_dir None
        [(attend_key sample_dir ''s'' ''b'', []), (class_key sample_dir ''a'', FormatInt 100),
         (class_key sample_dir ''b'', FormatInt 100)]
        = (Inr names,
           [(attend_key sample_dir ''s'' ''b'', []), (class_key sample_dir ''a'', FormatInt 100),
            (class_key sample_dir ''b'', FormatInt 100)]) \<and>
      map (class_key sample_dir) names
        = map fst (tr_GetRange (courseSS sample_dir)
            [(attend_key sample_dir ''s'' ''b'', []), (class_key sample_dir ''a'', FormatInt 100),
             (class_key sample_dir ''b'', FormatInt 100)]) \<and>
      sorted_wrt (<) names \<and>
      set names = {c. tr_Get (class_key sample_dir c)
            [(attend_key sample_dir ''s'' ''b'', []), (class_key sample_dir ''a'', FormatInt 100),
             (class_key sample_dir ''b'', FormatInt 100)] \<noteq> None} \<and>
      attend_key sample_dir ''s'' ''b''
        \<notin> fst ` set (tr_GetRange (courseSS sample_dir)
            [(attend_key sample_dir ''s'' ''b'', []), (class_key sample_dir ''a'', FormatInt 100),
             (class_key sample_dir ''b'', FormatInt 100)]))"
proof -
  have h1: "ordered_store
      [(attend_key sample_dir ''s'' ''b'', []), (class_key sample_dir ''a'', FormatInt 100),
       (class_key sample_dir ''b'', FormatInt 100)]"
    by code_simp
  have h2: "class_records_only sample_dir
      [(attend_key sample_dir ''s'' ''b'', []), (class_key sample_dir ''a'', FormatInt 100),
       (class_key sample_dir ''b'', FormatInt 100)]"
    by code_simp
  show ?thesis
    by (rule conjI [OF h1 conjI [OF h2 availableClasses_lists_class_region [OF h1 h2]]])
qed

text \<open>
  C7. The claim: the hand-written retry loop calls \<^verbatim>\<open>OnError\<close> and runs the work again
  when the commit fails with a retryable error, and returns the result when the commit
  succeeds. The loop of lines 82 to 97 tests \<^verbatim>\<open>err != nil\<close> first: with the retryable
  error 1020 at the first commit it returns that error after one attempt, without a
  call of \<^verbatim>\<open>OnError\<close>; with commits that succeed it never returns.
\<close>

theorem manual_signup_does_not_retry:
  "manual_signup sample_dir (\<lambda>code. code = 1020) None (\<lambda>n. if n = 0 then Some 1020 else None)
     ''s'' ''a'' []
     = Some (Some (FdbError 1020), \<lparr>database = [], attempts = 1, onerror_calls = 0\<rparr>) \<and>
   manual_signup sample_dir (\<lambda>code. code = 1020) None (\<lambda>n. None) ''s'' ''a'' [] = None"
  by (simp add: manual_signup_def signup_loop_diverges) (simp add: signup_loop_unfold)

text \<open>
  C8. The keys in the class region are exactly the keys of the ClassRecords written by
  the last committed initialisation, and every history of \<^verbatim>\<open>signup\<close> and \<^verbatim>\<open>drop\<close> calls
  after it leaves the class region (keys and values) as it was.
\<close>

theorem class_keys_fixed_by_initialize:
  "fst ` set (tr_GetRange (courseSS dir) (snd (initialize dir None cls db))) = class_key dir ` set cls \<and>
   tr_GetRange (courseSS dir) (run_calls dir cs (snd (initialize dir None cls db)))
     = tr_GetRange (courseSS dir) (snd (initialize dir None cls db)) \<and>
   fst ` set (tr_GetRange (courseSS dir) (run_calls dir cs (snd (initialize dir None cls db))))
     = class_key dir ` set cls"
  by (simp add: GetRange_run_calls class_keys_after_initialize)

text \<open>
  C9. For a class with seat count \<open>k\<close> and a student without an attendance record for
  it, \<^verbatim>\<open>signup\<close> followed by \<^verbatim>\<open>drop\<close> (both committed) leaves the seat count at \<open>k\<close>
  and no AttendanceRecord for the pair.
\<close>

theorem signup_then_drop:
  assumes "seatsAvailable dir c db = Some k"
      and "tr_Get (attend_key dir s c) db = None"
  shows "fst (signup dir None s c db) = None \<and>
         fst (drop_class dir None s c (snd (signup dir None s c db))) = None \<and>
         seatsAvailable dir c (snd (drop_class dir None s c (snd (signup dir None s c db)))) = Some k \<and>
         tr_Get (attend_key dir s c) (snd (drop_class dir None s c (snd (signup dir None s c db)))) = None"
  using assms
  by (simp add: signup_commit drop_commit tr_Get_tr_Clear seats_tr_Clear_attend seats_tr_Set_attend)

theorem signup_then_drop_witness:
  "seatsAvailable sample_dir ''a'' [(class_key sample_dir ''a'', FormatInt 7)] = Some (FormatInt 7) \<and>
   tr_Get (attend_key sample_dir ''s'' ''a'') [(class_key sample_dir ''a'', FormatInt 7)] = None \<and>
   fst (signup sample_dir None ''s'' ''a'' [(class_key sample_dir ''a'', FormatInt 7)]) = None \<and>
   fst (drop_class sample_dir None ''s'' ''a''
     (snd (signup sample_dir None ''s'' ''a'' [(class_key sample_dir ''a'', FormatInt 7)]))) = None \<and>
   seatsAvailable sample_dir ''a''
     (snd (drop_class sample_dir None ''s'' ''a''
        (snd (signup sample_dir None ''s'' ''a'' [(class_key sample_dir ''a'', FormatInt 7)]))))
     = Some (FormatInt 7) \<and>
   tr_Get (attend_key sample_dir ''s'' ''a'')
     (snd (drop_class sample_dir None ''s'' ''a''
        (snd (signup sample_dir None ''s'' ''a'' [(class_key sample_dir ''a'', FormatInt 7)]))))
     = None"
proof -
  have h1: "seatsAvailable sample_dir ''a'' [(class_key sample_dir ''a'', FormatInt 7)]
      = Some (FormatInt 7)"
    by code_simp
  have h2: "tr_Get (attend_key sample_dir ''s'' ''a'') [(class_key sample_dir ''a'', FormatInt 7)]
      = None"
    by code_simp
  show ?thesis
    by (rule conjI [OF h1 conjI [OF h2 signup_then_drop [OF h1 h2]]])
qed

text \<open>
  C10. The loop of the hand-written \<^verbatim>\<open>signup\<close> ends only through its error path: an
  attempt whose commit reports an error returns that error at the first check, with no
  call of \<^verbatim>\<open>OnError\<close>; an attempt whose commit succeeds takes neither return and the
  loop runs the body again. So the function never returns \<^verbatim>\<open>nil\<close>, and when every
  commit succeeds it never returns.
\<close>

theorem manual_loop_returns_only_errors:
  "signup_loop retryable commits k r =
     (case commits (attempts r) of
        Some code \<Rightarrow> Some (Some (FdbError code), r\<lparr>attempts := Suc (attempts r)\<rparr>)
      | None \<Rightarrow>
          signup_loop retryable commits k
            (r\<lparr>database := tr_Set k [] (database r), attempts := Suc (attempts r)\<rparr>)) \<and>
   signup_loop retryable commits k r \<noteq> Some (None, r') \<and>
   (signup_loop retryable commits k r = Some (err, r') \<longrightarrow> onerror_calls r' = onerror_calls r) \<and>
   ((\<forall>n. commits n = None) \<longrightarrow> signup_loop retryable commits k r = None)"
proof (intro conjI impI)
  show "signup_loop retryable commits k r =
     (case commits (attempts r) of
        Some code \<Rightarrow> Some (Some (FdbError code), r\<lparr>attempts := Suc (attempts r)\<rparr>)
      | None \<Rightarrow>
          signup_loop retryable commits k
            (r\<lparr>database := tr_Set k [] (database r), attempts := Suc (attempts r)\<rparr>))"
    by (rule signup_loop_unfold)
next
  show "signup_loop retryable commits k r \<noteq> Some (None, r')"
    using signup_loop_returns [of retryable commits k r "(None, r')"] by auto
next
  assume "signup_loop retryable commits k r = Some (err, r')"
  from signup_loop_returns [OF this] show "onerror_calls r' = onerror_calls r" by simp
next
  assume "\<forall>n. commits n = None"
  then show "signup_loop retryable commits k r = None" by (rule signup_loop_diverges)
qed

theorem manual_loop_returns_only_errors_witness:
  "signup_loop (\<lambda>code. code = 1020) (\<lambda>n. if n = 1 then Some 1020 else None)
     (attend_key sample_dir ''s'' ''a'') \<lparr>database = [], attempts = 0, onerror_calls = 0\<rparr>
     = Some (Some (FdbError 1020),
         \<lparr>database = [(attend_key sample_dir ''s'' ''a'', [])], attempts = 2, onerror_calls = 0\<rparr>) \<and>
   onerror_calls \<lparr>database = [(attend_key sample_dir ''s'' ''a'', [])], attempts = 2, onerror_calls = 0\<rparr>
     = onerror_calls \<lparr>database = [], attempts = 0, onerror_calls = 0\<rparr> \<and>
   (\<forall>n. (\<lambda>n::nat. None :: nat option) n = None) \<and>
   signup_loop (\<lambda>code. code = 1020) (\<lambda>n. None)
     (attend_key sample_dir ''s'' ''a'') \<lparr>database = [], attempts = 0, onerror_calls = 0\<rparr> = None"
proof -
  let ?k = "attend_key sample_dir ''s'' ''a''"
  let ?r0 = "\<lparr>database = [], attempts = 0, onerror_calls = 0\<rparr>"
  let ?r2 = "\<lparr>database = [(?k, [])], attempts = 2, onerror_calls = 0\<rparr>"
  let ?ca = "\<lambda>n::nat. if n = 1 then Some (1020::nat) else None"
  let ?cb = "\<lambda>n::nat. None :: nat option"
  note A = manual_loop_returns_only_errors
    [of "\<lambda>code. code = 1020" ?ca ?k ?r0 ?r2 "Some (FdbError 1020)"]
  note B = manual_loop_returns_only_errors
    [of "\<lambda>code. code = 1020" ?cb ?k ?r0 ?r2 "Some (FdbError 1020)"]
  have step0: "signup_loop (\<lambda>code. code = 1020) ?ca ?k ?r0
      = signup_loop (\<lambda>code. code = 1020) ?ca ?k \<lparr>database = [(?k, [])], attempts = 1, onerror_calls = 0\<rparr>"
    using manual_loop_returns_only_errors
      [of "\<lambda>code. code = 1020" ?ca ?k ?r0 ?r2 "Some (FdbError 1020)"]
    by simp
  have step1: "signup_loop (\<lambda>code. code = 1020) ?ca ?k \<lparr>database = [(?k, [])], attempts = 1, onerror_calls = 0\<rparr>
      = Some (Some (FdbError 1020), ?r2)"
    using manual_loop_returns_only_errors
      [of "\<lambda>code. code = 1020" ?ca ?k "\<lparr>database = [(?k, [])], attempts = 1, onerror_calls = 0\<rparr>" ?r2 "Some (FdbError 1020)"]
    by simp
  have e: "signup_loop (\<lambda>code. code = 1020) ?ca ?k ?r0 = Some (Some (FdbError 1020), ?r2)"
    using step0 step1 by simp
  from A e have o: "onerror_calls ?r2 = onerror_calls ?r0" by blast
  have h: "\<forall>n. ?cb n = None" by simp
  from B h have d: "signup_loop (\<lambda>code. code = 1020) ?cb ?k ?r0 = None" by blast
  from e o h d show ?thesis by blast
qed

end
